theory Spec2Isabelle
  imports Complex_Main
begin

section \<open>Data model of the reader (App component)\<close>

text \<open>
  A JavaScript string is its sequence of UTF-16 code units, each a number below
  \<open>0x10000\<close>. \<open>ascii\<close> gives the code units of a literal of ASCII characters.
\<close>

type_synonym codeUnit = nat

type_synonym jsString = "codeUnit list"

definition ascii :: "string \<Rightarrow> jsString" where
  "ascii str = map of_char str"

text \<open>
  The \<open>Surah\<close> objects of the chapter list, with the fields the component reads:
  \<open>number\<close>, \<open>name\<close> (native script), \<open>englishName\<close> (transliteration),
  \<open>englishNameTranslation\<close> (gloss) and \<open>numberOfAyahs\<close>. The numbers are the
  integers the verse service delivers.
\<close>

record Surah =
  number :: int
  name :: jsString
  englishName :: jsString
  englishNameTranslation :: jsString
  numberOfAyahs :: int

text \<open>The fetched verse, with the fields \<open>AyahView\<close> displays.\<close>

record AyahDisplayData =
  surahNumber :: int
  ayahNumber :: int
  surahNameEnglish :: jsString
  arabicText :: jsString
  textBn :: jsString
  textEn :: jsString

datatype ViewMode = reader | search

text \<open>
  The outcome of the awaited \<open>QuranService.getAyah(surahNum, ayahNum)\<close>: the promise is
  fulfilled with a verse or rejected. The service itself is outside the component and is
  a parameter of every handler.
\<close>

datatype 'a promise = Rejected | Fulfilled 'a

type_synonym QuranService = "int \<Rightarrow> int \<Rightarrow> AyahDisplayData promise"

text \<open>
  The state hooks and refs of the component that navigation reads or writes. A ref or a
  state slot of type \<open>T | null\<close> is an option. Touch coordinates are the numbers
  \<open>clientX\<close> and \<open>clientY\<close>: doubles, taken as the reals they denote. The error message
  is a literal that is only stored. The field \<open>getAyahCalls\<close> is the log of the calls
  made to \<open>QuranService.getAyah\<close>, oldest first: it is how the model records that a fetch
  was issued.
\<close>

record App =
  surahs :: "Surah list"
  currentSurah :: "Surah option"
  currentAyahNum :: int
  ayahData :: "AyahDisplayData option"
  viewMode :: ViewMode
  isSidebarOpen :: bool
  isLoadingAyah :: bool
  error :: "string option"
  touchStartX :: "real option"
  touchStartY :: "real option"
  touchEndX :: "real option"
  touchEndY :: "real option"
  getAyahCalls :: "(int \<times> int) list"

section \<open>Fetching a verse\<close>

text \<open>
  \<open>loadAyah\<close> is a \<open>useCallback\<close> over \<open>[surahs, currentSurah]\<close>: the chapter list and the
  current chapter it tests after the fetch are the ones of the render that created it,
  here the arguments \<open>surahs0\<close> and \<open>currentSurah0\<close>, while its setters act on the state
  \<open>s\<close>. The awaited response is delivered before any other event.
\<close>

definition loadAyah ::
  "QuranService \<Rightarrow> Surah list \<Rightarrow> Surah option \<Rightarrow> int \<Rightarrow> int \<Rightarrow> App \<Rightarrow> App" where
  "loadAyah getAyah surahs0 currentSurah0 surahNum ayahNum s =
     (let s1 = s\<lparr>isLoadingAyah := True, error := None,
                 getAyahCalls := getAyahCalls s @ [(surahNum, ayahNum)]\<rparr>;
          s2 = (case getAyah surahNum ayahNum of
                  Fulfilled data \<Rightarrow>
                    (let s' = s1\<lparr>ayahData := Some data, currentAyahNum := ayahNum\<rparr>
                     in if (case currentSurah0 of None \<Rightarrow> True
                            | Some c \<Rightarrow> number c \<noteq> surahNum)
                        then (case find (\<lambda>c. number c = surahNum) surahs0 of
                                Some foundSurah \<Rightarrow> s'\<lparr>currentSurah := Some foundSurah\<rparr>
                              | None \<Rightarrow> s')
                        else s')
                | Rejected \<Rightarrow>
                    s1\<lparr>error :=
                      Some ''Could not load Ayah. It might not exist or network is down.''\<rparr>)
      in s2\<lparr>isLoadingAyah := False\<rparr>)"

section \<open>Navigation handlers\<close>

definition handleNextAyah :: "QuranService \<Rightarrow> App \<Rightarrow> App" where
  "handleNextAyah getAyah s =
     (case currentSurah s of
        None \<Rightarrow> s
      | Some c \<Rightarrow>
          if currentAyahNum s < numberOfAyahs c
          then loadAyah getAyah (surahs s) (currentSurah s) (number c) (currentAyahNum s + 1) s
          else if number c < 114
          then loadAyah getAyah (surahs s) (currentSurah s) (number c + 1) 1 s
          else s)"

definition handlePrevAyah :: "QuranService \<Rightarrow> App \<Rightarrow> App" where
  "handlePrevAyah getAyah s =
     (case currentSurah s of
        None \<Rightarrow> s
      | Some c \<Rightarrow>
          if currentAyahNum s > 1
          then loadAyah getAyah (surahs s) (currentSurah s) (number c) (currentAyahNum s - 1) s
          else if number c > 1
          then loadAyah getAyah (surahs s) (currentSurah s) (number c - 1) 1 s
          else s)"

section \<open>Direct entry of a verse number\<close>

text \<open>
  \<open>parseInt(string)\<close> with no radix. Leading white space is dropped: the code points
  \<open>WhiteSpace\<close> and \<open>LineTerminator\<close> of the language, which are TAB, LF, VT, FF, CR, the
  space separators of Unicode (U+0020, U+00A0, U+1680, U+2000 to U+200A, U+202F, U+205F,
  U+3000), U+2028, U+2029 and U+FEFF. Then one sign is read, a prefix \<open>0x\<close> or \<open>0X\<close>
  selects radix 16, the longest run of digits of the radix is the numeral, and with no
  digit the result is \<open>NaN\<close>, here \<open>None\<close>. The numeral is kept as a mathematical integer,
  which is the Number that \<open>parseInt\<close> returns up to \<open>2^53\<close>.
\<close>

definition isWhiteSpace :: "codeUnit \<Rightarrow> bool" where
  "isWhiteSpace c =
     (c \<in> {0x9, 0xA, 0xB, 0xC, 0xD, 0x20, 0xA0, 0x1680, 0x2028, 0x2029, 0x202F, 0x205F,
            0x3000, 0xFEFF}
      \<or> (0x2000 \<le> c \<and> c \<le> 0x200A))"

definition digitValue :: "codeUnit \<Rightarrow> nat option" where
  "digitValue c =
     (if 0x30 \<le> c \<and> c \<le> 0x39 then Some (c - 0x30)
      else if 0x61 \<le> c \<and> c \<le> 0x7A then Some (c - 0x61 + 10)
      else if 0x41 \<le> c \<and> c \<le> 0x5A then Some (c - 0x41 + 10)
      else None)"

definition isRadixDigit :: "nat \<Rightarrow> codeUnit \<Rightarrow> bool" where
  "isRadixDigit R c = (case digitValue c of None \<Rightarrow> False | Some d \<Rightarrow> d < R)"

definition mathInt :: "nat \<Rightarrow> jsString \<Rightarrow> nat" where
  "mathInt R Z =
     foldl (\<lambda>acc c. acc * R + (case digitValue c of None \<Rightarrow> 0 | Some d \<Rightarrow> d)) 0 Z"

definition parseInt :: "jsString \<Rightarrow> int option" where
  "parseInt inputString =
     (let S = dropWhile isWhiteSpace inputString;
          sign = (if S \<noteq> [] \<and> hd S = 0x2D then - 1 else 1 :: int);
          S1 = (if S \<noteq> [] \<and> (hd S = 0x2B \<or> hd S = 0x2D) then tl S else S);
          hex = (take 2 S1 = [0x30, 0x78] \<or> take 2 S1 = [0x30, 0x58]);
          R = (if hex then 16 else 10);
          S2 = (if hex then drop 2 S1 else S1);
          Z = takeWhile (isRadixDigit R) S2
      in if Z = [] then None else Some (sign * int (mathInt R Z)))"

text \<open>
  \<open>handleJumpToAyah\<close> receives the text of the input field, \<open>e.target.value\<close>.
\<close>

definition handleJumpToAyah :: "QuranService \<Rightarrow> jsString \<Rightarrow> App \<Rightarrow> App" where
  "handleJumpToAyah getAyah targetValue s =
     (case (currentSurah s, parseInt targetValue) of
        (Some c, Some num) \<Rightarrow>
          if num > 0 \<and> num \<le> numberOfAyahs c
          then loadAyah getAyah (surahs s) (currentSurah s) (number c) num s
          else s
      | _ \<Rightarrow> s)"

section \<open>Swipe handlers\<close>

text \<open>
  \<open>onTouchStart\<close> and \<open>onTouchMove\<close> take the coordinates of \<open>e.targetTouches[0]\<close>.
\<close>

definition onTouchStart :: "real \<times> real \<Rightarrow> App \<Rightarrow> App" where
  "onTouchStart touch s =
     s\<lparr>touchStartX := Some (fst touch), touchStartY := Some (snd touch),
       touchEndX := None, touchEndY := None\<rparr>"

definition onTouchMove :: "real \<times> real \<Rightarrow> App \<Rightarrow> App" where
  "onTouchMove touch s = s\<lparr>touchEndX := Some (fst touch), touchEndY := Some (snd touch)\<rparr>"

text \<open>The expression \<open>r || 0\<close> on a ref holding a number or \<open>null\<close>.\<close>

definition orZero :: "real option \<Rightarrow> real" where
  "orZero r = (case r of None \<Rightarrow> 0 | Some x \<Rightarrow> x)"

text \<open>
  The guard \<open>!touchStartX.current || !touchEndX.current\<close> holds for \<open>null\<close> and for the
  number 0. The two subtractions are subtractions of doubles: each yields the exact
  difference rounded to a double. The rounding is the parameter \<open>fl\<close>; \<open>Math.abs\<close> and
  the comparisons are exact.
\<close>

definition onTouchEnd :: "(real \<Rightarrow> real) \<Rightarrow> QuranService \<Rightarrow> App \<Rightarrow> App" where
  "onTouchEnd fl getAyah s =
     (case (touchStartX s, touchEndX s) of
        (Some startX, Some endX) \<Rightarrow>
          if startX = 0 \<or> endX = 0 then s
          else
            (let xDist = fl (startX - endX);
                 yDist = fl (orZero (touchStartY s) - orZero (touchEndY s));
                 minSwipeDistance = 50
             in if \<bar>xDist\<bar> > minSwipeDistance \<and> \<bar>xDist\<bar> > \<bar>yDist\<bar>
                then (if xDist > 0 then handleNextAyah getAyah s
                      else handlePrevAyah getAyah s)
                else s)
      | _ \<Rightarrow> s)"

section \<open>Selecting a search result or a chapter\<close>


definition selectSurahFromList :: "QuranService \<Rightarrow> Surah \<Rightarrow> App \<Rightarrow> App" where
  "selectSurahFromList getAyah surah s =
     (let s1 = s\<lparr>viewMode := reader, currentSurah := Some surah\<rparr>;
          s2 = loadAyah getAyah (surahs s) (currentSurah s) (number surah) 1 s1
      in s2\<lparr>isSidebarOpen := False\<rparr>)"

section \<open>The chapter filter of the sidebar\<close>

text \<open>
  \<open>Number.prototype.toString\<close> on an integer and \<open>String.prototype.includes\<close>.
\<close>

fun natToString :: "nat \<Rightarrow> jsString" where
  "natToString n =
     (let lastDigit = 0x30 + n mod 10
      in if n < 10 then [lastDigit] else natToString (n div 10) @ [lastDigit])"

declare natToString.simps [simp del]

definition toString :: "int \<Rightarrow> jsString" where
  "toString n = (if n < 0 then 0x2D # natToString (nat (- n)) else natToString (nat n))"

fun startsWith :: "jsString \<Rightarrow> jsString \<Rightarrow> bool" where
  "startsWith str [] = True"
| "startsWith [] (q # qs) = False"
| "startsWith (c # cs) (q # qs) = (c = q \<and> startsWith cs qs)"

fun includes_str :: "jsString \<Rightarrow> jsString \<Rightarrow> bool" where
  "includes_str [] q = (q = [])"
| "includes_str (c # cs) q = (startsWith (c # cs) q \<or> includes_str cs q)"

text \<open>
  \<open>String.prototype.toLowerCase\<close> follows the case mappings of the Unicode character
  database, which are no part of the component: the function is the parameter
  \<open>toLowerCase\<close> of the filter.
\<close>

definition filteredSurahs ::
  "(jsString \<Rightarrow> jsString) \<Rightarrow> Surah list \<Rightarrow> jsString \<Rightarrow> Surah list" where
  "filteredSurahs toLowerCase surahs0 surahQuery =
     filter (\<lambda>s. includes_str (toString (number s)) surahQuery
                \<or> includes_str (toLowerCase (englishName s)) (toLowerCase surahQuery)
                \<or> includes_str (toLowerCase (englishNameTranslation s)) (toLowerCase surahQuery)
                \<or> includes_str (name s) surahQuery) surahs0"

text \<open>
  The lower case of a text made of ASCII characters and the Greek letters \<open>\<Sigma>\<close> (U+03A3),
  \<open>\<sigma>\<close> (U+03C3) and \<open>\<sigma>\<close> in its final form (U+03C2), as \<open>toLowerCase\<close> gives it: \<open>A\<close> to \<open>Z\<close> go
  to \<open>a\<close> to \<open>z\<close>; \<open>\<Sigma>\<close> goes to the final form when a cased letter comes before it and
  none comes after it, case-ignorable characters (apostrophe, full stop, colon,
  circumflex, grave accent) skipped on both sides, and to \<open>\<sigma>\<close> otherwise; every other
  character stays.
\<close>

definition isCased :: "codeUnit \<Rightarrow> bool" where
  "isCased c =
     ((0x41 \<le> c \<and> c \<le> 0x5A) \<or> (0x61 \<le> c \<and> c \<le> 0x7A) \<or> c \<in> {0x3A3, 0x3C2, 0x3C3})"

definition isCaseIgnorable :: "codeUnit \<Rightarrow> bool" where
  "isCaseIgnorable c = (c \<in> {0x27, 0x2E, 0x3A, 0x5E, 0x60})"

definition lowerUnit :: "codeUnit \<Rightarrow> codeUnit" where
  "lowerUnit c = (if 0x41 \<le> c \<and> c \<le> 0x5A then c + 0x20 else c)"

definition casedAhead :: "jsString \<Rightarrow> bool" where
  "casedAhead cs =
     (case dropWhile isCaseIgnorable cs of [] \<Rightarrow> False | d # _ \<Rightarrow> isCased d)"

fun lowerAfter :: "bool \<Rightarrow> jsString \<Rightarrow> jsString" where
  "lowerAfter casedBefore [] = []"
| "lowerAfter casedBefore (c # cs) =
     (if c = 0x3A3
      then (if casedBefore \<and> \<not> casedAhead cs then 0x3C2 else 0x3C3) # lowerAfter True cs
      else lowerUnit c
             # lowerAfter (if isCaseIgnorable c then casedBefore else isCased c) cs)"

definition toLowerCaseAsciiSigma :: "jsString \<Rightarrow> jsString" where
  "toLowerCaseAsciiSigma str = lowerAfter False str"

section \<open>Sample data\<close>

text \<open>
  The initial values of the state hooks and refs, and a loaded chapter list: the 114
  chapters with their verse counts. The sample chapters carry no names, which navigation
  never reads.
\<close>

definition initialApp :: App where
  "initialApp =
     \<lparr>surahs = [], currentSurah = None, currentAyahNum = 1, ayahData = None,
      viewMode = search, isSidebarOpen = False, isLoadingAyah = False, error = None,
      touchStartX = None, touchStartY = None, touchEndX = None, touchEndY = None,
      getAyahCalls = []\<rparr>"

definition verseCounts :: "int list" where
  "verseCounts =
     [7, 286, 200, 176, 120, 165, 206, 75, 129, 109, 123, 111, 43, 52, 99, 128, 111, 110, 98,
      135, 112, 78, 118, 64, 77, 227, 93, 88, 69, 60, 34, 30, 73, 54, 45, 83, 182, 88, 75,
      85, 54, 53, 89, 59, 37, 35, 38, 29, 18, 45, 60, 49, 62, 55, 78, 96, 29, 22, 24, 13, 14,
      11, 11, 18, 12, 12, 30, 52, 52, 44, 28, 28, 20, 56, 40, 31, 50, 40, 46, 42, 29, 19, 36,
      25, 22, 17, 19, 26, 30, 20, 15, 21, 11, 8, 8, 19, 5, 8, 8, 11, 11, 8, 3, 9, 5, 4, 7, 3,
      6, 3, 5, 4, 5, 6]"

definition surahOf :: "int \<Rightarrow> int \<Rightarrow> Surah" where
  "surahOf n k =
     \<lparr>number = n, name = [], englishName = [], englishNameTranslation = [],
      numberOfAyahs = k\<rparr>"

definition allSurahs :: "Surah list" where
  "allSurahs = map2 surahOf [1..114] verseCounts"

text \<open>A verse service that knows the sample chapters and rejects every other position.\<close>

definition sampleService :: QuranService where
  "sampleService surahNum ayahNum =
     (case find (\<lambda>c. number c = surahNum) allSurahs of
        None \<Rightarrow> Rejected
      | Some c \<Rightarrow>
          if 1 \<le> ayahNum \<and> ayahNum \<le> numberOfAyahs c
          then Fulfilled
                 \<lparr>surahNumber = surahNum, ayahNumber = ayahNum,
                  surahNameEnglish = englishName c, arabicText = [], textBn = [],
                  textEn = []\<rparr>
          else Rejected)"

text \<open>The reader open at verse \<open>v\<close> of chapter \<open>c\<close>, the chapter list loaded.\<close>

definition readingAt :: "Surah \<Rightarrow> int \<Rightarrow> App" where
  "readingAt c v =
     initialApp\<lparr>surahs := allSurahs, currentSurah := Some c, currentAyahNum := v,
       viewMode := reader\<rparr>"

text \<open>
  The refs after a finger went down at \<open>startPoint\<close> and moved to \<open>endPoint\<close>, before it
  lifts.
\<close>

definition swipe :: "real \<times> real \<Rightarrow> real \<times> real \<Rightarrow> App \<Rightarrow> App" where
  "swipe startPoint endPoint s = onTouchMove endPoint (onTouchStart startPoint s)"

text \<open>
  Three chapters with their names, for the sidebar filter, and a chapter whose
  transliterated name is the letter \<open>A\<close> followed by \<open>\<Sigma>\<close>.
\<close>

definition namedSurahs :: "Surah list" where
  "namedSurahs =
     [\<lparr>number = 1, name = ascii ''al-fatihah'', englishName = ascii ''Al-Faatiha'',
       englishNameTranslation = ascii ''The Opening'', numberOfAyahs = 7\<rparr>,
      \<lparr>number = 2, name = ascii ''al-baqarah'', englishName = ascii ''Al-Baqara'',
       englishNameTranslation = ascii ''The Cow'', numberOfAyahs = 286\<rparr>,
      \<lparr>number = 12, name = ascii ''yusuf'', englishName = ascii ''Yusuf'',
       englishNameTranslation = ascii ''Joseph'', numberOfAyahs = 111\<rparr>]"

definition sigmaSurah :: Surah where
  "sigmaSurah =
     \<lparr>number = 5, name = [], englishName = [0x41, 0x3A3], englishNameTranslation = [],
      numberOfAyahs = 120\<rparr>"

section \<open>Notions of the specification\<close>

text \<open>
  The fetches issued between a state and a later one, and the bound of the data model:
  a position \<open>(chapterId, verseIndex)\<close> is in range for a chapter list when the list has
  the chapter and the verse index lies within \<open>[1, verseCount]\<close> of it.
\<close>

definition fetched :: "App \<Rightarrow> App \<Rightarrow> (int \<times> int) list" where
  "fetched s s' = drop (length (getAyahCalls s)) (getAyahCalls s')"



definition positionInRange :: "App \<Rightarrow> bool" where
  "positionInRange s =
     (case currentSurah s of
        None \<Rightarrow> True
      | Some c \<Rightarrow>
          c \<in> set (surahs s) \<and> 1 \<le> currentAyahNum s \<and> currentAyahNum s \<le> numberOfAyahs c)"

text \<open>
  The chapter filter in the words of the specification: a text contains a query when the
  query is a contiguous part of it. Two characters are the same letter up to case when
  they are equal or one is a capital \<open>A\<close> to \<open>Z\<close> and the other its small letter; a text
  contains a query case-insensitively when a contiguous part of the text matches the
  query character by character up to case.
\<close>

definition contains :: "jsString \<Rightarrow> jsString \<Rightarrow> bool" where
  "contains str q = (\<exists>pre post. str = pre @ q @ post)"

definition sameLetter :: "codeUnit \<Rightarrow> codeUnit \<Rightarrow> bool" where
  "sameLetter a b =
     (a = b
      \<or> (0x41 \<le> a \<and> a \<le> 0x5A \<and> b = a + 0x20)
      \<or> (0x41 \<le> b \<and> b \<le> 0x5A \<and> a = b + 0x20))"

definition containsIgnoringCase :: "jsString \<Rightarrow> jsString \<Rightarrow> bool" where
  "containsIgnoringCase str q =
     (\<exists>pre mid post. str = pre @ mid @ post \<and> list_all2 sameLetter mid q)"

definition matchesQuery :: "Surah \<Rightarrow> jsString \<Rightarrow> bool" where
  "matchesQuery s q =
     (contains (toString (number s)) q
      \<or> containsIgnoringCase (englishName s) q
      \<or> containsIgnoringCase (englishNameTranslation s) q
      \<or> contains (name s) q)"

text \<open>
  What the filter computes for any lower-casing function: the lower-cased text contains
  the lower-cased query.
\<close>

definition matchesLowered :: "(jsString \<Rightarrow> jsString) \<Rightarrow> Surah \<Rightarrow> jsString \<Rightarrow> bool" where
  "matchesLowered toLowerCase s q =
     (contains (toString (number s)) q
      \<or> contains (toLowerCase (englishName s)) (toLowerCase q)
      \<or> contains (toLowerCase (englishNameTranslation s)) (toLowerCase q)
      \<or> contains (name s) q)"

text \<open>
  ASCII text, and what \<open>toLowerCase\<close> does on it: the capitals \<open>A\<close> to \<open>Z\<close> become small
  letters and every other character stays.
\<close>

definition isAsciiText :: "jsString \<Rightarrow> bool" where
  "isAsciiText str = list_all (\<lambda>c. c < 0x80) str"

definition lowersAscii :: "(jsString \<Rightarrow> jsString) \<Rightarrow> bool" where
  "lowersAscii toLowerCase =
     (\<forall>str. isAsciiText str \<longrightarrow> toLowerCase str = map lowerUnit str)"

definition asciiNames :: "Surah \<Rightarrow> bool" where
  "asciiNames s = (isAsciiText (englishName s) \<and> isAsciiText (englishNameTranslation s))"

text \<open>
  The text that \<open>parseInt\<close> reads, in the words of the language definition: white space,
  an optional sign, then either a run of decimal digits or the prefix \<open>0x\<close> or \<open>0X\<close> and
  a run of hexadecimal digits, then a rest that does not continue the run. The value of
  a run of digits is the sum of its digits times the powers of the radix.
\<close>

definition isDecimalDigit :: "codeUnit \<Rightarrow> bool" where
  "isDecimalDigit c = (0x30 \<le> c \<and> c \<le> 0x39)"

definition isHexDigit :: "codeUnit \<Rightarrow> bool" where
  "isHexDigit c =
     ((0x30 \<le> c \<and> c \<le> 0x39) \<or> (0x61 \<le> c \<and> c \<le> 0x66) \<or> (0x41 \<le> c \<and> c \<le> 0x46))"

definition digitOf :: "codeUnit \<Rightarrow> nat" where
  "digitOf c =
     (if c \<le> 0x39 then c - 0x30 else if c \<le> 0x46 then c - 0x41 + 10 else c - 0x61 + 10)"

fun placeValue :: "nat \<Rightarrow> jsString \<Rightarrow> nat" where
  "placeValue R [] = 0"
| "placeValue R (c # cs) = digitOf c * R ^ length cs + placeValue R cs"

definition isSign :: "jsString \<Rightarrow> bool" where
  "isSign sign = (sign = [] \<or> sign = [0x2B] \<or> sign = [0x2D])"

definition signValue :: "jsString \<Rightarrow> int" where
  "signValue sign = (if sign = [0x2D] then - 1 else 1)"

definition decimalText :: "jsString \<Rightarrow> jsString \<Rightarrow> jsString \<Rightarrow> jsString \<Rightarrow> bool" where
  "decimalText ws sign ds rest =
     (list_all isWhiteSpace ws \<and> isSign sign \<and> list_all isDecimalDigit ds
      \<and> (case rest of
            [] \<Rightarrow> True
          | r # _ \<Rightarrow>
              \<not> isDecimalDigit r
              \<and> (ds = [0x30] \<longrightarrow> r \<noteq> 0x78 \<and> r \<noteq> 0x58)
              \<and> (sign = [] \<and> ds = [] \<longrightarrow> \<not> isWhiteSpace r \<and> r \<noteq> 0x2B \<and> r \<noteq> 0x2D)))"

definition hexText ::
  "jsString \<Rightarrow> jsString \<Rightarrow> jsString \<Rightarrow> jsString \<Rightarrow> jsString \<Rightarrow> bool" where
  "hexText ws sign px hs rest =
     (list_all isWhiteSpace ws \<and> isSign sign \<and> (px = [0x30, 0x78] \<or> px = [0x30, 0x58])
      \<and> list_all isHexDigit hs
      \<and> (case rest of [] \<Rightarrow> True | r # _ \<Rightarrow> \<not> isHexDigit r))"

text \<open>
  Rounding a real to the nearest double is monotone and odd, and 50 is a double; a
  difference that overflows counts as a value beyond every double. The swipe theorems
  hold for every function with these three properties.
\<close>

definition doubleRounding :: "(real \<Rightarrow> real) \<Rightarrow> bool" where
  "doubleRounding fl = (mono fl \<and> (\<forall>x. fl (- x) = - fl x) \<and> fl 50 = 50)"

section \<open>Fetching: the log of calls\<close>

lemma getAyahCalls_loadAyah:
  "getAyahCalls (loadAyah g S C n a s) = getAyahCalls s @ [(n, a)]"
  by (simp add: loadAyah_def Let_def split: promise.split option.split)

lemma fetched_loadAyah: "fetched s (loadAyah g S C n a s) = [(n, a)]"
  by (simp add: fetched_def getAyahCalls_loadAyah)


section \<open>Next and previous verse\<close>

text \<open>
  Claim C1. With a current chapter \<open>c\<close> and the current verse \<open>v\<close>, \<open>handleNextAyah\<close>
  (advance) calls \<open>loadAyah(c.number, v + 1)\<close> when \<open>v < c.numberOfAyahs\<close>; calls
  \<open>loadAyah(c.number + 1, 1)\<close> when \<open>v = c.numberOfAyahs\<close> and \<open>c.number < 114\<close>; and
  changes nothing and fetches nothing when \<open>v = c.numberOfAyahs\<close> and \<open>c.number = 114\<close>.
\<close>

theorem handleNextAyah_cases:
  assumes "currentSurah s = Some c"
  shows "(currentAyahNum s < numberOfAyahs c \<longrightarrow>
            handleNextAyah g s
              = loadAyah g (surahs s) (currentSurah s) (number c) (currentAyahNum s + 1) s
          \<and> getAyahCalls (handleNextAyah g s)
              = getAyahCalls s @ [(number c, currentAyahNum s + 1)])
       \<and> (currentAyahNum s = numberOfAyahs c \<and> number c < 114 \<longrightarrow>
            handleNextAyah g s
              = loadAyah g (surahs s) (currentSurah s) (number c + 1) 1 s
          \<and> getAyahCalls (handleNextAyah g s) = getAyahCalls s @ [(number c + 1, 1)])
       \<and> (currentAyahNum s = numberOfAyahs c \<and> number c = 114 \<longrightarrow>
            handleNextAyah g s = s)"
  using assms by (simp add: handleNextAyah_def getAyahCalls_loadAyah)

theorem handleNextAyah_cases_witness:
  "currentSurah (readingAt (surahOf 1 7) 3) = Some (surahOf 1 7)
   \<and> currentAyahNum (readingAt (surahOf 1 7) 3) < numberOfAyahs (surahOf 1 7)
   \<and> getAyahCalls (handleNextAyah sampleService (readingAt (surahOf 1 7) 3)) = [(1, 4)]
   \<and> currentSurah (readingAt (surahOf 1 7) 7) = Some (surahOf 1 7)
   \<and> currentAyahNum (readingAt (surahOf 1 7) 7) = numberOfAyahs (surahOf 1 7)
   \<and> number (surahOf 1 7) < 114
   \<and> getAyahCalls (handleNextAyah sampleService (readingAt (surahOf 1 7) 7)) = [(2, 1)]
   \<and> currentSurah (readingAt (surahOf 114 6) 6) = Some (surahOf 114 6)
   \<and> currentAyahNum (readingAt (surahOf 114 6) 6) = numberOfAyahs (surahOf 114 6)
   \<and> number (surahOf 114 6) = 114
   \<and> handleNextAyah sampleService (readingAt (surahOf 114 6) 6) = readingAt (surahOf 114 6) 6"
  using handleNextAyah_cases [of "readingAt (surahOf 1 7) 3" "surahOf 1 7" sampleService]
        handleNextAyah_cases [of "readingAt (surahOf 1 7) 7" "surahOf 1 7" sampleService]
        handleNextAyah_cases [of "readingAt (surahOf 114 6) 6" "surahOf 114 6" sampleService]
  by (simp add: readingAt_def initialApp_def surahOf_def getAyahCalls_loadAyah)

text \<open>
  Claim C2. With a current chapter \<open>c\<close> and the current verse \<open>v\<close>, \<open>handlePrevAyah\<close>
  (retreat) calls \<open>loadAyah(c.number, v - 1)\<close> when \<open>v > 1\<close>; calls
  \<open>loadAyah(c.number - 1, 1)\<close>, verse 1 of the previous chapter, when \<open>v = 1\<close> and
  \<open>c.number > 1\<close>; and changes nothing and fetches nothing when \<open>v = 1\<close> and
  \<open>c.number = 1\<close>.
\<close>

theorem handlePrevAyah_cases:
  assumes "currentSurah s = Some c"
  shows "(currentAyahNum s > 1 \<longrightarrow>
            handlePrevAyah g s
              = loadAyah g (surahs s) (currentSurah s) (number c) (currentAyahNum s - 1) s
          \<and> getAyahCalls (handlePrevAyah g s)
              = getAyahCalls s @ [(number c, currentAyahNum s - 1)])
       \<and> (currentAyahNum s = 1 \<and> number c > 1 \<longrightarrow>
            handlePrevAyah g s
              = loadAyah g (surahs s) (currentSurah s) (number c - 1) 1 s
          \<and> getAyahCalls (handlePrevAyah g s) = getAyahCalls s @ [(number c - 1, 1)])
       \<and> (currentAyahNum s = 1 \<and> number c = 1 \<longrightarrow> handlePrevAyah g s = s)"
  using assms by (simp add: handlePrevAyah_def getAyahCalls_loadAyah)

theorem handlePrevAyah_cases_witness:
  "currentSurah (readingAt (surahOf 2 286) 5) = Some (surahOf 2 286)
   \<and> currentAyahNum (readingAt (surahOf 2 286) 5) > 1
   \<and> getAyahCalls (handlePrevAyah sampleService (readingAt (surahOf 2 286) 5)) = [(2, 4)]
   \<and> currentSurah (readingAt (surahOf 114 6) 1) = Some (surahOf 114 6)
   \<and> currentAyahNum (readingAt (surahOf 114 6) 1) = 1
   \<and> number (surahOf 114 6) > 1
   \<and> getAyahCalls (handlePrevAyah sampleService (readingAt (surahOf 114 6) 1)) = [(113, 1)]
   \<and> currentSurah (readingAt (surahOf 1 7) 1) = Some (surahOf 1 7)
   \<and> currentAyahNum (readingAt (surahOf 1 7) 1) = 1
   \<and> number (surahOf 1 7) = 1
   \<and> handlePrevAyah sampleService (readingAt (surahOf 1 7) 1) = readingAt (surahOf 1 7) 1"
  using handlePrevAyah_cases [of "readingAt (surahOf 2 286) 5" "surahOf 2 286" sampleService]
        handlePrevAyah_cases [of "readingAt (surahOf 114 6) 1" "surahOf 114 6" sampleService]
        handlePrevAyah_cases [of "readingAt (surahOf 1 7) 1" "surahOf 1 7" sampleService]
  by (simp add: readingAt_def initialApp_def surahOf_def getAyahCalls_loadAyah)

text \<open>
  Claim C9. While no current chapter is set, \<open>handleNextAyah\<close>, \<open>handlePrevAyah\<close> and
  \<open>handleJumpToAyah\<close> on any input leave the state as it is: no fetch is issued and
  nothing changes.
\<close>

theorem no_currentSurah_no_navigation:
  assumes "currentSurah s = None"
  shows "handleNextAyah g s = s \<and> handlePrevAyah g s = s \<and> handleJumpToAyah g v s = s"
  using assms by (simp add: handleNextAyah_def handlePrevAyah_def handleJumpToAyah_def)

theorem no_currentSurah_no_navigation_witness:
  "currentSurah initialApp = None
   \<and> handleNextAyah sampleService initialApp = initialApp
   \<and> handlePrevAyah sampleService initialApp = initialApp
   \<and> handleJumpToAyah sampleService (ascii ''3'') initialApp = initialApp"
  using no_currentSurah_no_navigation [of initialApp sampleService "ascii ''3''"]
  by (simp add: initialApp_def)

section \<open>A rejected fetch\<close>

text \<open>
  Claim C5. When the verse service rejects the request of \<open>loadAyah\<close>, the displayed
  verse, the current chapter and the current verse number stay as they were, the error
  slot holds a message, the loading flag ends false, and the request is the only call
  made to the service: there is no retry.
\<close>

theorem loadAyah_rejected:
  assumes "getAyah surahNum ayahNum = Rejected"
  shows "ayahData (loadAyah getAyah S C surahNum ayahNum s) = ayahData s
       \<and> currentSurah (loadAyah getAyah S C surahNum ayahNum s) = currentSurah s
       \<and> currentAyahNum (loadAyah getAyah S C surahNum ayahNum s) = currentAyahNum s
       \<and> error (loadAyah getAyah S C surahNum ayahNum s)
           = Some ''Could not load Ayah. It might not exist or network is down.''
       \<and> isLoadingAyah (loadAyah getAyah S C surahNum ayahNum s) = False
       \<and> getAyahCalls (loadAyah getAyah S C surahNum ayahNum s)
           = getAyahCalls s @ [(surahNum, ayahNum)]"
  using assms by (simp add: loadAyah_def)

theorem loadAyah_rejected_witness:
  "sampleService 9 999 = Rejected
   \<and> ayahData (loadAyah sampleService allSurahs (Some (surahOf 2 286)) 9 999
        (readingAt (surahOf 2 286) 5)) = None
   \<and> currentSurah (loadAyah sampleService allSurahs (Some (surahOf 2 286)) 9 999
        (readingAt (surahOf 2 286) 5)) = Some (surahOf 2 286)
   \<and> currentAyahNum (loadAyah sampleService allSurahs (Some (surahOf 2 286)) 9 999
        (readingAt (surahOf 2 286) 5)) = 5
   \<and> isLoadingAyah (loadAyah sampleService allSurahs (Some (surahOf 2 286)) 9 999
        (readingAt (surahOf 2 286) 5)) = False
   \<and> getAyahCalls (loadAyah sampleService allSurahs (Some (surahOf 2 286)) 9 999
        (readingAt (surahOf 2 286) 5)) = [(9, 999)]"
proof -
  have rejected: "sampleService 9 999 = Rejected"
    by code_simp
  from loadAyah_rejected [of sampleService 9 999 allSurahs "Some (surahOf 2 286)"
      "readingAt (surahOf 2 286) 5"] rejected
  show ?thesis by (simp add: readingAt_def initialApp_def)
qed

section \<open>Swipes\<close>

lemma doubleRounding_zero: "doubleRounding fl \<Longrightarrow> fl 0 = 0"
proof -
  assume "doubleRounding fl"
  then have "fl (- 0) = - fl 0" unfolding doubleRounding_def by blast
  then show ?thesis by simp
qed

lemma doubleRounding_sign:
  assumes "doubleRounding fl"
  shows "0 \<le> x \<Longrightarrow> 0 \<le> fl x" and "x \<le> 0 \<Longrightarrow> fl x \<le> 0"
proof -
  from assms have m: "mono fl" by (simp add: doubleRounding_def)
  show "0 \<le> x \<Longrightarrow> 0 \<le> fl x"
    using monoD [OF m, of 0 x] doubleRounding_zero [OF assms] by simp
  show "x \<le> 0 \<Longrightarrow> fl x \<le> 0"
    using monoD [OF m, of x 0] doubleRounding_zero [OF assms] by simp
qed

lemma doubleRounding_abs:
  assumes "doubleRounding fl"
  shows "\<bar>fl x\<bar> = fl \<bar>x\<bar>"
proof (cases "0 \<le> x")
  case True
  with doubleRounding_sign(1) [OF assms, of x] show ?thesis by simp
next
  case False
  then have neg: "x \<le> 0" by simp
  from assms have "fl (- x) = - fl x" unfolding doubleRounding_def by blast
  with neg doubleRounding_sign(2) [OF assms neg] show ?thesis by simp
qed

lemma doubleRounding_abs_mono:
  assumes "doubleRounding fl" and "\<bar>x\<bar> \<le> \<bar>y\<bar>"
  shows "\<bar>fl x\<bar> \<le> \<bar>fl y\<bar>"
proof -
  from assms(1) have "mono fl" by (simp add: doubleRounding_def)
  from monoD [OF this assms(2)] show ?thesis
    by (simp add: doubleRounding_abs [OF assms(1)])
qed

lemma doubleRounding_id: "doubleRounding id"
  by (simp add: doubleRounding_def mono_def)

text \<open>
  Claim C6, as amended. For a gesture with both x-coordinates recorded and different
  from 0, let \<open>xDist\<close> and \<open>yDist\<close> be the differences \<open>startX - endX\<close> and
  \<open>startY - endY\<close> as the code computes them, in doubles. If \<open>|xDist| > 50\<close> and
  \<open>|xDist| > |yDist|\<close>, then \<open>onTouchEnd\<close> runs \<open>handleNextAyah\<close> (advance) when
  \<open>dx = endX - startX < 0\<close>, a swipe to the left, and \<open>handlePrevAyah\<close> (retreat) when
  \<open>dx > 0\<close>.
\<close>

theorem onTouchEnd_swipe:
  assumes "doubleRounding fl"
    and "touchStartX s = Some startX" and "touchStartY s = Some startY"
    and "touchEndX s = Some endX" and "touchEndY s = Some endY"
    and "startX \<noteq> 0" and "endX \<noteq> 0"
    and "\<bar>fl (startX - endX)\<bar> > 50"
    and "\<bar>fl (startX - endX)\<bar> > \<bar>fl (startY - endY)\<bar>"
  shows "(endX - startX < 0 \<longrightarrow> onTouchEnd fl g s = handleNextAyah g s)
       \<and> (endX - startX > 0 \<longrightarrow> onTouchEnd fl g s = handlePrevAyah g s)"
proof -
  have left: "fl (startX - endX) > 0" if "endX - startX < 0"
    using that doubleRounding_sign(1) [OF assms(1), of "startX - endX"] assms(8) by simp
  have right: "\<not> fl (startX - endX) > 0" if "endX - startX > 0"
    using that doubleRounding_sign(2) [OF assms(1), of "startX - endX"] by simp
  show ?thesis
    using assms(2-9) left right by (simp add: onTouchEnd_def orZero_def Let_def)
qed

theorem onTouchEnd_swipe_witness:
  "doubleRounding id
   \<and> touchStartX (swipe (280, 100) (200, 100) (readingAt (surahOf 1 7) 3)) = Some 280
   \<and> touchStartY (swipe (280, 100) (200, 100) (readingAt (surahOf 1 7) 3)) = Some 100
   \<and> touchEndX (swipe (280, 100) (200, 100) (readingAt (surahOf 1 7) 3)) = Some 200
   \<and> touchEndY (swipe (280, 100) (200, 100) (readingAt (surahOf 1 7) 3)) = Some 100
   \<and> (280::real) \<noteq> 0 \<and> (200::real) \<noteq> 0
   \<and> \<bar>id (280 - 200)\<bar> > (50::real) \<and> \<bar>id (280 - 200)\<bar> > \<bar>id (100 - (100::real))\<bar>
   \<and> (200::real) - 280 < 0
   \<and> onTouchEnd id sampleService (swipe (280, 100) (200, 100) (readingAt (surahOf 1 7) 3))
       = handleNextAyah sampleService
           (swipe (280, 100) (200, 100) (readingAt (surahOf 1 7) 3))
   \<and> getAyahCalls
        (onTouchEnd id sampleService
          (swipe (280, 100) (200, 100) (readingAt (surahOf 1 7) 3)))
       = [(1, 4)]"
  using onTouchEnd_swipe [of id "swipe (280, 100) (200, 100) (readingAt (surahOf 1 7) 3)"
          280 100 200 100 sampleService] doubleRounding_id
  by (simp add: swipe_def onTouchMove_def onTouchStart_def readingAt_def initialApp_def
        surahOf_def handleNextAyah_def getAyahCalls_loadAyah)

theorem onTouchEnd_swipe_right_counterexample:
  "touchStartX (swipe (200, 100) (280, 100) (readingAt (surahOf 1 7) 3)) = Some 200
   \<and> touchEndX (swipe (200, 100) (280, 100) (readingAt (surahOf 1 7) 3)) = Some 280
   \<and> touchStartY (swipe (200, 100) (280, 100) (readingAt (surahOf 1 7) 3)) = Some 100
   \<and> touchEndY (swipe (200, 100) (280, 100) (readingAt (surahOf 1 7) 3)) = Some 100
   \<and> getAyahCalls
        (onTouchEnd id sampleService
          (swipe (200, 100) (280, 100) (readingAt (surahOf 1 7) 3)))
       = [(1, 2)]
   \<and> getAyahCalls
        (handleNextAyah sampleService (swipe (200, 100) (280, 100) (readingAt (surahOf 1 7) 3)))
       = [(1, 4)]
   \<and> onTouchEnd id sampleService (swipe (200, 100) (280, 100) (readingAt (surahOf 1 7) 3))
       \<noteq> handleNextAyah sampleService
            (swipe (200, 100) (280, 100) (readingAt (surahOf 1 7) 3))"
proof -
  let ?s = "swipe (200, 100) (280, 100) (readingAt (surahOf 1 7) 3)"
  have refs: "touchStartX ?s = Some 200" "touchEndX ?s = Some 280"
    "touchStartY ?s = Some 100" "touchEndY ?s = Some 100"
    by (simp_all add: swipe_def onTouchMove_def onTouchStart_def)
  have prev: "getAyahCalls (onTouchEnd id sampleService ?s) = [(1, 2)]"
    by (simp add: swipe_def onTouchMove_def onTouchStart_def onTouchEnd_def
        handlePrevAyah_def getAyahCalls_loadAyah orZero_def readingAt_def initialApp_def
        surahOf_def)
  have nxt: "getAyahCalls (handleNextAyah sampleService ?s) = [(1, 4)]"
    by (simp add: swipe_def onTouchMove_def onTouchStart_def handleNextAyah_def
        getAyahCalls_loadAyah readingAt_def initialApp_def surahOf_def)
  from prev nxt have "onTouchEnd id sampleService ?s \<noteq> handleNextAyah sampleService ?s"
    by auto
  with refs prev nxt show ?thesis by simp
qed

text \<open>
  Claim C7. For a gesture whose displacements satisfy \<open>|dx| \<le> 50\<close> or \<open>|dx| \<le> |dy|\<close>,
  \<open>onTouchEnd\<close> leaves the state as it is: neither \<open>handleNextAyah\<close> nor
  \<open>handlePrevAyah\<close> runs. The displacements are the exact ones; the differences that
  the code computes in doubles fail its test whenever these do.
\<close>

theorem onTouchEnd_no_swipe:
  assumes "doubleRounding fl"
    and "touchStartX s = Some startX" and "touchStartY s = Some startY"
    and "touchEndX s = Some endX" and "touchEndY s = Some endY"
    and "\<bar>endX - startX\<bar> \<le> 50 \<or> \<bar>endX - startX\<bar> \<le> \<bar>endY - startY\<bar>"
  shows "onTouchEnd fl g s = s"
proof -
  from assms(1) have fifty: "fl 50 = 50" by (simp add: doubleRounding_def)
  from assms(6)
  have "\<bar>fl (startX - endX)\<bar> \<le> 50 \<or> \<bar>fl (startX - endX)\<bar> \<le> \<bar>fl (startY - endY)\<bar>"
  proof
    assume "\<bar>endX - startX\<bar> \<le> 50"
    then have "\<bar>startX - endX\<bar> \<le> \<bar>50\<bar>" by simp
    from doubleRounding_abs_mono [OF assms(1) this] fifty show ?thesis by simp
  next
    assume "\<bar>endX - startX\<bar> \<le> \<bar>endY - startY\<bar>"
    then have "\<bar>startX - endX\<bar> \<le> \<bar>startY - endY\<bar>" by simp
    from doubleRounding_abs_mono [OF assms(1) this] show ?thesis by simp
  qed
  with assms(2-5) show ?thesis
    by (auto simp add: onTouchEnd_def orZero_def Let_def)
qed

theorem onTouchEnd_no_swipe_witness:
  "doubleRounding id
   \<and> touchStartX (swipe (100, 100) (130, 100) (readingAt (surahOf 1 7) 3)) = Some 100
   \<and> touchStartY (swipe (100, 100) (130, 100) (readingAt (surahOf 1 7) 3)) = Some 100
   \<and> touchEndX (swipe (100, 100) (130, 100) (readingAt (surahOf 1 7) 3)) = Some 130
   \<and> touchEndY (swipe (100, 100) (130, 100) (readingAt (surahOf 1 7) 3)) = Some 100
   \<and> \<bar>130 - 100\<bar> \<le> (50::real)
   \<and> onTouchEnd id sampleService (swipe (100, 100) (130, 100) (readingAt (surahOf 1 7) 3))
       = swipe (100, 100) (130, 100) (readingAt (surahOf 1 7) 3)
   \<and> touchStartX (swipe (100, 100) (160, 170) (readingAt (surahOf 1 7) 3)) = Some 100
   \<and> touchStartY (swipe (100, 100) (160, 170) (readingAt (surahOf 1 7) 3)) = Some 100
   \<and> touchEndX (swipe (100, 100) (160, 170) (readingAt (surahOf 1 7) 3)) = Some 160
   \<and> touchEndY (swipe (100, 100) (160, 170) (readingAt (surahOf 1 7) 3)) = Some 170
   \<and> \<bar>160 - 100\<bar> \<le> \<bar>170 - (100::real)\<bar>
   \<and> onTouchEnd id sampleService (swipe (100, 100) (160, 170) (readingAt (surahOf 1 7) 3))
       = swipe (100, 100) (160, 170) (readingAt (surahOf 1 7) 3)"
  using onTouchEnd_no_swipe [of id "swipe (100, 100) (130, 100) (readingAt (surahOf 1 7) 3)"
          100 100 130 100 sampleService]
        onTouchEnd_no_swipe [of id "swipe (100, 100) (160, 170) (readingAt (surahOf 1 7) 3)"
          100 100 160 170 sampleService]
        doubleRounding_id
  by (simp add: swipe_def onTouchMove_def onTouchStart_def)

text \<open>
  Claim C10. When the recorded start x-coordinate or end x-coordinate is exactly 0,
  \<open>onTouchEnd\<close> leaves the state as it is, whatever the displacements: the coordinate 0
  is treated as an absent touch point (\<open>null\<close>) is.
\<close>

theorem onTouchEnd_zero_coordinate:
  assumes "touchStartX s \<in> {None, Some 0} \<or> touchEndX s \<in> {None, Some 0}"
  shows "onTouchEnd fl g s = s"
  using assms by (auto simp add: onTouchEnd_def split: option.split)

theorem onTouchEnd_zero_coordinate_witness:
  "touchStartX (swipe (0, 100) (80, 100) (readingAt (surahOf 1 7) 3)) = Some 0
   \<and> touchEndX (swipe (0, 100) (80, 100) (readingAt (surahOf 1 7) 3)) = Some 80
   \<and> \<bar>80 - 0\<bar> > (50::real) \<and> \<bar>80 - 0\<bar> > \<bar>100 - (100::real)\<bar>
   \<and> onTouchEnd id sampleService (swipe (0, 100) (80, 100) (readingAt (surahOf 1 7) 3))
       = swipe (0, 100) (80, 100) (readingAt (surahOf 1 7) 3)
   \<and> touchEndX (swipe (80, 100) (0, 100) (readingAt (surahOf 1 7) 3)) = Some 0
   \<and> onTouchEnd id sampleService (swipe (80, 100) (0, 100) (readingAt (surahOf 1 7) 3))
       = swipe (80, 100) (0, 100) (readingAt (surahOf 1 7) 3)"
  using onTouchEnd_zero_coordinate [of "swipe (0, 100) (80, 100) (readingAt (surahOf 1 7) 3)"
          id sampleService]
        onTouchEnd_zero_coordinate [of "swipe (80, 100) (0, 100) (readingAt (surahOf 1 7) 3)"
          id sampleService]
  by (simp add: swipe_def onTouchMove_def onTouchStart_def)

section \<open>The chapter filter\<close>

lemma startsWith_iff: "startsWith str q \<longleftrightarrow> (\<exists>post. str = q @ post)"
  by (induction str q rule: startsWith.induct) auto

lemma contains_Cons:
  "contains (c # cs) q \<longleftrightarrow> (\<exists>post. c # cs = q @ post) \<or> contains cs q"
proof
  assume "contains (c # cs) q"
  then obtain pre post where eq: "c # cs = pre @ q @ post"
    by (auto simp: contains_def)
  show "(\<exists>post. c # cs = q @ post) \<or> contains cs q"
  proof (cases pre)
    case Nil
    with eq show ?thesis by auto
  next
    case (Cons p ps)
    with eq have "cs = ps @ q @ post" by simp
    then show ?thesis by (auto simp: contains_def)
  qed
next
  assume "(\<exists>post. c # cs = q @ post) \<or> contains cs q"
  then show "contains (c # cs) q"
  proof
    assume "\<exists>post. c # cs = q @ post"
    then obtain post where "c # cs = [] @ q @ post" by auto
    then show ?thesis unfolding contains_def by blast
  next
    assume "contains cs q"
    then obtain pre post where "cs = pre @ q @ post" by (auto simp: contains_def)
    then have "c # cs = (c # pre) @ q @ post" by simp
    then show ?thesis unfolding contains_def by blast
  qed
qed

lemma includes_str_iff: "includes_str str q \<longleftrightarrow> contains str q"
proof (induction str)
  case Nil
  show ?case by (auto simp: contains_def)
next
  case (Cons c cs)
  then show ?case by (simp add: startsWith_iff contains_Cons)
qed

lemma includes_str_Nil: "includes_str str []"
  by (induction str) auto

lemma filteredSurahs_lowered:
  "filteredSurahs L cs q = filter (\<lambda>s. matchesLowered L s q) cs"
  by (simp add: filteredSurahs_def matchesLowered_def includes_str_iff)

lemma filteredSurahs_empty_query: "filteredSurahs L cs [] = cs"
  by (simp add: filteredSurahs_def includes_str_Nil)

lemma lowerUnit_eq_iff: "lowerUnit a = lowerUnit b \<longleftrightarrow> sameLetter a b"
  by (auto simp add: lowerUnit_def sameLetter_def)

lemma map_lowerUnit_eq_iff:
  "map lowerUnit xs = map lowerUnit ys \<longleftrightarrow> list_all2 sameLetter xs ys"
proof (induction xs arbitrary: ys)
  case Nil
  show ?case by auto
next
  case (Cons x xs)
  show ?case
  proof (cases ys)
    case Nil
    then show ?thesis by simp
  next
    case (Cons y ys')
    with Cons.IH [of ys'] show ?thesis by (simp add: lowerUnit_eq_iff)
  qed
qed

lemma contains_map_lowerUnit:
  "contains (map lowerUnit str) (map lowerUnit q) \<longleftrightarrow> containsIgnoringCase str q"
proof
  assume "contains (map lowerUnit str) (map lowerUnit q)"
  then obtain pre post where "map lowerUnit str = pre @ (map lowerUnit q @ post)"
    by (auto simp: contains_def)
  then obtain x y where xy: "str = x @ y" "map lowerUnit q @ post = map lowerUnit y"
    unfolding map_eq_append_conv by blast
  from xy(2) obtain m z where mz: "y = m @ z" "map lowerUnit q = map lowerUnit m"
    unfolding append_eq_map_conv by blast
  from mz(2) have "list_all2 sameLetter m q"
    by (simp add: map_lowerUnit_eq_iff [symmetric])
  with xy(1) mz(1) show "containsIgnoringCase str q"
    unfolding containsIgnoringCase_def by blast
next
  assume "containsIgnoringCase str q"
  then obtain pre mid post where d: "str = pre @ mid @ post" "list_all2 sameLetter mid q"
    by (auto simp: containsIgnoringCase_def)
  from d(2) have "map lowerUnit mid = map lowerUnit q" by (simp add: map_lowerUnit_eq_iff)
  with d(1)
  have "map lowerUnit str = map lowerUnit pre @ map lowerUnit q @ map lowerUnit post"
    by simp
  then show "contains (map lowerUnit str) (map lowerUnit q)"
    unfolding contains_def by blast
qed

lemma matchesLowered_ascii:
  assumes "lowersAscii L" and "isAsciiText q" and "asciiNames s"
  shows "matchesLowered L s q \<longleftrightarrow> matchesQuery s q"
proof -
  from assms have "L q = map lowerUnit q" "L (englishName s) = map lowerUnit (englishName s)"
    "L (englishNameTranslation s) = map lowerUnit (englishNameTranslation s)"
    by (simp_all add: lowersAscii_def asciiNames_def)
  then show ?thesis
    by (simp add: matchesLowered_def matchesQuery_def contains_map_lowerUnit)
qed

lemma lowerAfter_ascii: "isAsciiText str \<Longrightarrow> lowerAfter b str = map lowerUnit str"
  by (induction str arbitrary: b) (auto simp add: isAsciiText_def)

lemma lowersAscii_sample: "lowersAscii toLowerCaseAsciiSigma"
  by (simp add: lowersAscii_def toLowerCaseAsciiSigma_def lowerAfter_ascii)

text \<open>
  Claim C8, as amended. For every chapter list, every query and whatever \<open>toLowerCase\<close>
  computes, \<open>filteredSurahs\<close> returns, in the order of the list, exactly the chapters
  whose number's decimal text contains the query, or whose lower-cased \<open>englishName\<close> or
  lower-cased \<open>englishNameTranslation\<close> contains the lower-cased query, or whose \<open>name\<close>
  contains the query as it is written; the empty query returns the whole list. When the
  query and the two names of every chapter are ASCII text, the two middle conditions are
  that the name contains the query case-insensitively. The result is a function of the
  chapter list and the query alone.
\<close>

theorem filteredSurahs_matchesQuery:
  "filteredSurahs L cs q = filter (\<lambda>s. matchesLowered L s q) cs
   \<and> filteredSurahs L cs [] = cs
   \<and> (lowersAscii L \<and> isAsciiText q \<and> list_all asciiNames cs \<longrightarrow>
        filteredSurahs L cs q = filter (\<lambda>s. matchesQuery s q) cs)"
proof -
  have "filter (\<lambda>s. matchesLowered L s q) cs = filter (\<lambda>s. matchesQuery s q) cs"
    if "lowersAscii L" and "isAsciiText q" and "list_all asciiNames cs"
    using that by (intro filter_cong refl matchesLowered_ascii) (auto simp: list_all_iff)
  with filteredSurahs_lowered [of L cs q] filteredSurahs_empty_query [of L cs]
  show ?thesis by simp
qed

theorem filteredSurahs_matchesQuery_witness:
  "lowersAscii toLowerCaseAsciiSigma
   \<and> isAsciiText (ascii ''OPEN'') \<and> isAsciiText (ascii ''2'')
   \<and> list_all asciiNames namedSurahs
   \<and> filter (\<lambda>s. matchesQuery s (ascii ''OPEN'')) namedSurahs = [namedSurahs ! 0]
   \<and> filter (\<lambda>s. matchesQuery s (ascii ''2'')) namedSurahs = [namedSurahs ! 1, namedSurahs ! 2]
   \<and> filteredSurahs toLowerCaseAsciiSigma namedSurahs [] = namedSurahs"
proof -
  have q: "isAsciiText (ascii ''OPEN'')" "isAsciiText (ascii ''2'')"
    by (simp_all add: isAsciiText_def ascii_def)
  have n: "list_all asciiNames namedSurahs"
    by (simp add: asciiNames_def isAsciiText_def namedSurahs_def ascii_def)
  have a: "filteredSurahs toLowerCaseAsciiSigma namedSurahs (ascii ''OPEN'')
             = [namedSurahs ! 0]"
    by (simp add: filteredSurahs_def toLowerCaseAsciiSigma_def lowerUnit_def isCased_def
        isCaseIgnorable_def casedAhead_def toString_def natToString.simps namedSurahs_def
        ascii_def)
  have b: "filteredSurahs toLowerCaseAsciiSigma namedSurahs (ascii ''2'')
             = [namedSurahs ! 1, namedSurahs ! 2]"
    by (simp add: filteredSurahs_def toLowerCaseAsciiSigma_def lowerUnit_def isCased_def
        isCaseIgnorable_def casedAhead_def toString_def natToString.simps namedSurahs_def
        ascii_def)
  have c1: "filteredSurahs toLowerCaseAsciiSigma namedSurahs (ascii ''OPEN'')
              = filter (\<lambda>s. matchesQuery s (ascii ''OPEN'')) namedSurahs"
    using filteredSurahs_matchesQuery [of toLowerCaseAsciiSigma namedSurahs "ascii ''OPEN''"]
      lowersAscii_sample q(1) n
    by blast
  have c2: "filteredSurahs toLowerCaseAsciiSigma namedSurahs (ascii ''2'')
              = filter (\<lambda>s. matchesQuery s (ascii ''2'')) namedSurahs"
    using filteredSurahs_matchesQuery [of toLowerCaseAsciiSigma namedSurahs "ascii ''2''"]
      lowersAscii_sample q(2) n
    by blast
  have c3: "filteredSurahs toLowerCaseAsciiSigma namedSurahs [] = namedSurahs"
    using filteredSurahs_matchesQuery [of toLowerCaseAsciiSigma namedSurahs "[]"]
    by blast
  note r1 = trans [OF c1 [symmetric] a] and r2 = trans [OF c2 [symmetric] b]
  from lowersAscii_sample q n r1 r2 c3 show ?thesis
    by (intro conjI)
qed

theorem filteredSurahs_final_sigma_counterexample:
  "englishName sigmaSurah = [0x41, 0x3A3]
   \<and> includes_str (englishName sigmaSurah) [0x3A3]
   \<and> matchesQuery sigmaSurah [0x3A3]
   \<and> toLowerCaseAsciiSigma (englishName sigmaSurah) = [0x61, 0x3C2]
   \<and> toLowerCaseAsciiSigma [0x3A3] = [0x3C3]
   \<and> filteredSurahs toLowerCaseAsciiSigma [sigmaSurah] [0x3A3] = []"
proof -
  have "[0x41, 0x3A3] = [0x41] @ [0x3A3] @ ([] :: jsString)"
    by simp
  moreover have "list_all2 sameLetter [0x3A3] [0x3A3]"
    by (simp add: sameLetter_def)
  ultimately have "containsIgnoringCase [0x41, 0x3A3] [0x3A3]"
    unfolding containsIgnoringCase_def by blast
  then have m: "matchesQuery sigmaSurah [0x3A3]"
    by (simp add: matchesQuery_def sigmaSurah_def)
  have l: "toLowerCaseAsciiSigma [0x41, 0x3A3] = [0x61, 0x3C2]"
    "toLowerCaseAsciiSigma [0x3A3] = [0x3C3]" "toLowerCaseAsciiSigma [] = []"
    by (simp_all add: toLowerCaseAsciiSigma_def lowerUnit_def isCased_def
        isCaseIgnorable_def casedAhead_def)
  have s: "toString 5 = [0x35]"
    by (simp add: toString_def natToString.simps)
  have f: "filteredSurahs toLowerCaseAsciiSigma [sigmaSurah] [0x3A3] = []"
    by (simp add: filteredSurahs_def sigmaSurah_def l s)
  from m l f show ?thesis by (simp add: sigmaSurah_def)
qed

section \<open>Direct entry: what parseInt reads\<close>

lemma isRadixDigit_decimal: "isRadixDigit 10 c \<longleftrightarrow> isDecimalDigit c"
  by (auto simp add: isRadixDigit_def digitValue_def isDecimalDigit_def)

lemma isRadixDigit_hex: "isRadixDigit 16 c \<longleftrightarrow> isHexDigit c"
  by (auto simp add: isRadixDigit_def digitValue_def isHexDigit_def)

lemma digitValue_decimal: "isDecimalDigit c \<Longrightarrow> digitValue c = Some (digitOf c)"
  by (simp add: digitValue_def digitOf_def isDecimalDigit_def)

lemma digitValue_hex: "isHexDigit c \<Longrightarrow> digitValue c = Some (digitOf c)"
  by (auto simp add: digitValue_def digitOf_def isHexDigit_def)

lemma foldl_placeValue:
  assumes "\<forall>c\<in>set Z. digitValue c = Some (digitOf c)"
  shows "foldl (\<lambda>acc c. acc * R + (case digitValue c of None \<Rightarrow> 0 | Some d \<Rightarrow> d)) a Z
           = a * R ^ length Z + placeValue R Z"
  using assms
proof (induction Z arbitrary: a)
  case Nil
  show ?case by simp
next
  case (Cons c cs)
  then show ?case by (simp add: algebra_simps)
qed

lemma mathInt_placeValue:
  "\<forall>c\<in>set Z. digitValue c = Some (digitOf c) \<Longrightarrow> mathInt R Z = placeValue R Z"
  unfolding mathInt_def by (simp add: foldl_placeValue)

lemma takeWhile_run:
  assumes "list_all P ds" and "rest = [] \<or> \<not> P (hd rest)"
  shows "takeWhile P (ds @ rest) = ds"
proof -
  from assms(2) have "takeWhile P rest = []" by (cases rest) auto
  with assms(1) show ?thesis by (simp add: takeWhile_append list_all_iff)
qed

lemma sign_not_white: "\<not> isWhiteSpace 0x2B" "\<not> isWhiteSpace 0x2D"
  by (simp_all add: isWhiteSpace_def)

lemma decimal_not_white: "isDecimalDigit c \<Longrightarrow> \<not> isWhiteSpace c"
  by (auto simp add: isDecimalDigit_def isWhiteSpace_def)

lemma parseInt_unsigned_decimal:
  assumes "list_all isDecimalDigit ds"
    and "case rest of [] \<Rightarrow> True
         | r # _ \<Rightarrow> \<not> isDecimalDigit r \<and> (ds = [0x30] \<longrightarrow> r \<noteq> 0x78 \<and> r \<noteq> 0x58)"
  shows "take 2 (ds @ rest) \<noteq> [0x30, 0x78] \<and> take 2 (ds @ rest) \<noteq> [0x30, 0x58]
       \<and> takeWhile (isRadixDigit 10) (ds @ rest) = ds"
proof -
  have stop: "rest = [] \<or> \<not> isRadixDigit 10 (hd rest)"
    using assms(2) by (cases rest) (auto simp: isRadixDigit_decimal)
  have run: "list_all (isRadixDigit 10) ds"
    using assms(1) by (simp add: list_all_iff isRadixDigit_decimal)
  have nohex: "take 2 (ds @ rest) \<noteq> [0x30, x]" if "x = 0x78 \<or> x = 0x58" for x
  proof (cases ds)
    case Nil
    with assms(2) that show ?thesis
      by (cases rest) (auto simp: isDecimalDigit_def)
  next
    case outer: (Cons d ds')
    show ?thesis
    proof (cases ds')
      case Nil
      with outer assms(2) that show ?thesis by (cases rest) auto
    next
      case (Cons e es)
      with outer assms(1) have "isDecimalDigit e" by simp
      with outer Cons that show ?thesis by (auto simp: isDecimalDigit_def)
    qed
  qed
  from nohex [of "0x78"] nohex [of "0x58"] takeWhile_run [OF run stop]
  show ?thesis by simp
qed


lemma parseInt_skip_white:
  assumes "list_all isWhiteSpace ws"
  shows "parseInt (ws @ t) = parseInt t"
proof -
  from assms have "dropWhile isWhiteSpace (ws @ t) = dropWhile isWhiteSpace t"
    by (intro dropWhile_append2) (simp add: list_all_iff)
  then show ?thesis by (simp add: parseInt_def)
qed

lemma parseInt_plain:
  assumes "t = [] \<or> (\<not> isWhiteSpace (hd t) \<and> hd t \<noteq> 0x2B \<and> hd t \<noteq> 0x2D)"
    and "take 2 t \<noteq> [0x30, 0x78]" and "take 2 t \<noteq> [0x30, 0x58]"
    and "takeWhile (isRadixDigit 10) t = Z"
  shows "parseInt t = (if Z = [] then None else Some (int (mathInt 10 Z)))"
proof (cases t)
  case Nil
  with assms(4) show ?thesis by (simp add: parseInt_def)
next
  case (Cons a as)
  with assms(1) have "\<not> isWhiteSpace a" "a \<noteq> 0x2B" "a \<noteq> 0x2D" by simp_all
  then have "dropWhile isWhiteSpace t = t" "hd t \<noteq> 0x2B" "hd t \<noteq> 0x2D" "t \<noteq> []"
    using Cons by simp_all
  with assms(2-4) show ?thesis
    unfolding parseInt_def Let_def by (simp only: if_False simp_thms mult_1)
qed

lemma parseInt_plus:
  assumes "take 2 t \<noteq> [0x30, 0x78]" and "take 2 t \<noteq> [0x30, 0x58]"
    and "takeWhile (isRadixDigit 10) t = Z"
  shows "parseInt (0x2B # t) = (if Z = [] then None else Some (int (mathInt 10 Z)))"
proof -
  have "dropWhile isWhiteSpace (0x2B # t) = 0x2B # t"
    by (simp add: sign_not_white)
  with assms show ?thesis
    unfolding parseInt_def Let_def by simp
qed

lemma parseInt_minus:
  assumes "take 2 t \<noteq> [0x30, 0x78]" and "take 2 t \<noteq> [0x30, 0x58]"
    and "takeWhile (isRadixDigit 10) t = Z"
  shows "parseInt (0x2D # t) = (if Z = [] then None else Some (- int (mathInt 10 Z)))"
proof -
  have "dropWhile isWhiteSpace (0x2D # t) = 0x2D # t"
    by (simp add: sign_not_white)
  with assms show ?thesis
    unfolding parseInt_def Let_def by simp
qed

lemma parseInt_plain_hex:
  assumes "x = 0x78 \<or> x = 0x58" and "takeWhile (isRadixDigit 16) u = Z"
  shows "parseInt (0x30 # x # u) = (if Z = [] then None else Some (int (mathInt 16 Z)))"
proof -
  have "dropWhile isWhiteSpace (0x30 # x # u) = 0x30 # x # u"
    by (simp add: isWhiteSpace_def)
  then show ?thesis
    unfolding parseInt_def Let_def using assms by auto
qed

lemma parseInt_plus_hex:
  assumes "x = 0x78 \<or> x = 0x58" and "takeWhile (isRadixDigit 16) u = Z"
  shows "parseInt (0x2B # 0x30 # x # u)
           = (if Z = [] then None else Some (int (mathInt 16 Z)))"
proof -
  have "dropWhile isWhiteSpace (0x2B # 0x30 # x # u) = 0x2B # 0x30 # x # u"
    by (simp add: sign_not_white)
  then show ?thesis
    unfolding parseInt_def Let_def using assms by auto
qed

lemma parseInt_minus_hex:
  assumes "x = 0x78 \<or> x = 0x58" and "takeWhile (isRadixDigit 16) u = Z"
  shows "parseInt (0x2D # 0x30 # x # u)
           = (if Z = [] then None else Some (- int (mathInt 16 Z)))"
proof -
  have "dropWhile isWhiteSpace (0x2D # 0x30 # x # u) = 0x2D # 0x30 # x # u"
    by (simp add: sign_not_white)
  then show ?thesis
    unfolding parseInt_def Let_def using assms by auto
qed

lemma parseInt_decimalText:
  assumes "decimalText ws sign ds rest"
  shows "parseInt (ws @ sign @ ds @ rest)
           = (if ds = [] then None else Some (signValue sign * int (placeValue 10 ds)))"
proof -
  from assms have ws: "list_all isWhiteSpace ws" and sg: "isSign sign"
    and ds: "list_all isDecimalDigit ds"
    by (simp_all add: decimalText_def)
  from assms
  have rest: "case rest of [] \<Rightarrow> True
              | r # _ \<Rightarrow> \<not> isDecimalDigit r \<and> (ds = [0x30] \<longrightarrow> r \<noteq> 0x78 \<and> r \<noteq> 0x58)"
    by (cases rest) (simp_all add: decimalText_def)
  from assms
  have bare: "sign = [] \<Longrightarrow> ds = [] \<Longrightarrow> rest = []
                \<or> (\<not> isWhiteSpace (hd rest) \<and> hd rest \<noteq> 0x2B \<and> hd rest \<noteq> 0x2D)"
    by (cases rest) (simp_all add: decimalText_def)
  note body = parseInt_unsigned_decimal [OF ds rest]
  have val: "mathInt 10 ds = placeValue 10 ds"
    using ds by (intro mathInt_placeValue) (auto simp: list_all_iff digitValue_decimal)
  have skip: "parseInt (ws @ sign @ ds @ rest) = parseInt (sign @ ds @ rest)"
    by (rule parseInt_skip_white [OF ws])
  from sg consider "sign = []" | "sign = [0x2B]" | "sign = [0x2D]"
    by (auto simp: isSign_def)
  then show ?thesis
  proof cases
    case 1
    have first: "ds @ rest = [] \<or> (\<not> isWhiteSpace (hd (ds @ rest))
                   \<and> hd (ds @ rest) \<noteq> 0x2B \<and> hd (ds @ rest) \<noteq> 0x2D)"
    proof (cases ds)
      case Nil
      with bare [OF 1] show ?thesis by simp
    next
      case (Cons d ds')
      with ds have d: "isDecimalDigit d" by simp
      from d have "d \<noteq> 0x2B" "d \<noteq> 0x2D" by (auto simp: isDecimalDigit_def)
      with Cons decimal_not_white [OF d] show ?thesis by simp
    qed
    from body have "parseInt (ds @ rest)
        = (if ds = [] then None else Some (int (mathInt 10 ds)))"
      by (intro parseInt_plain [OF first]) simp_all
    with 1 skip val show ?thesis by (simp add: signValue_def)
  next
    case 2
    from body have "parseInt (0x2B # ds @ rest)
        = (if ds = [] then None else Some (int (mathInt 10 ds)))"
      by (intro parseInt_plus) simp_all
    with 2 skip val show ?thesis by (simp add: signValue_def)
  next
    case 3
    from body have "parseInt (0x2D # ds @ rest)
        = (if ds = [] then None else Some (- int (mathInt 10 ds)))"
      by (intro parseInt_minus) simp_all
    with 3 skip val show ?thesis by (simp add: signValue_def)
  qed
qed

lemma parseInt_hexText:
  assumes "hexText ws sign px hs rest"
  shows "parseInt (ws @ sign @ px @ hs @ rest)
           = (if hs = [] then None else Some (signValue sign * int (placeValue 16 hs)))"
proof -
  from assms have ws: "list_all isWhiteSpace ws" and sg: "isSign sign"
    and px: "px = [0x30, 0x78] \<or> px = [0x30, 0x58]"
    and hs: "list_all isHexDigit hs"
    by (simp_all add: hexText_def)
  from assms have rest: "rest = [] \<or> \<not> isHexDigit (hd rest)"
    by (cases rest) (simp_all add: hexText_def)
  have run: "takeWhile (isRadixDigit 16) (hs @ rest) = hs"
    using hs rest
    by (intro takeWhile_run) (auto simp: list_all_iff isRadixDigit_hex)
  have val: "mathInt 16 hs = placeValue 16 hs"
    using hs by (intro mathInt_placeValue) (auto simp: list_all_iff digitValue_hex)
  have skip: "parseInt (ws @ sign @ px @ hs @ rest) = parseInt (sign @ px @ hs @ rest)"
    by (rule parseInt_skip_white [OF ws])
  from px obtain x where x: "x = 0x78 \<or> x = 0x58" "px = [0x30, x]"
    by auto
  from sg consider "sign = []" | "sign = [0x2B]" | "sign = [0x2D]"
    by (auto simp: isSign_def)
  then show ?thesis
  proof cases
    case 1
    with skip val x(2) parseInt_plain_hex [OF x(1) run] show ?thesis
      by (simp add: signValue_def)
  next
    case 2
    with skip val x(2) parseInt_plus_hex [OF x(1) run] show ?thesis
      by (simp add: signValue_def)
  next
    case 3
    with skip val x(2) parseInt_minus_hex [OF x(1) run] show ?thesis
      by (simp add: signValue_def)
  qed
qed

lemma white_split:
  "\<exists>ws t. v = ws @ t \<and> list_all isWhiteSpace ws \<and> (t = [] \<or> \<not> isWhiteSpace (hd t))"
proof (intro exI conjI)
  show "v = takeWhile isWhiteSpace v @ dropWhile isWhiteSpace v" by simp
  show "list_all isWhiteSpace (takeWhile isWhiteSpace v)"
    by (simp add: list_all_iff) (meson set_takeWhileD)
  show "dropWhile isWhiteSpace v = [] \<or> \<not> isWhiteSpace (hd (dropWhile isWhiteSpace v))"
    using hd_dropWhile [of isWhiteSpace v] by blast
qed

lemma run_split:
  "\<exists>ds rest. u = ds @ rest \<and> list_all P ds \<and> (case rest of [] \<Rightarrow> True | r # _ \<Rightarrow> \<not> P r)"
proof (intro exI conjI)
  show "u = takeWhile P u @ dropWhile P u" by simp
  show "list_all P (takeWhile P u)"
    by (simp add: list_all_iff) (meson set_takeWhileD)
  show "case dropWhile P u of [] \<Rightarrow> True | r # _ \<Rightarrow> \<not> P r"
  proof (cases "dropWhile P u")
    case Nil
    show ?thesis unfolding Nil by simp
  next
    case (Cons r rs)
    have "dropWhile P u \<noteq> []" unfolding Cons by simp
    from hd_dropWhile [OF this] show ?thesis unfolding Cons by simp
  qed
qed

lemma unsigned_text_cases:
  "(\<exists>ds rest. u = ds @ rest \<and> list_all isDecimalDigit ds
      \<and> (case rest of [] \<Rightarrow> True
          | r # _ \<Rightarrow> \<not> isDecimalDigit r \<and> (ds = [0x30] \<longrightarrow> r \<noteq> 0x78 \<and> r \<noteq> 0x58)))
   \<or> (\<exists>px hs rest. u = px @ hs @ rest \<and> (px = [0x30, 0x78] \<or> px = [0x30, 0x58])
      \<and> list_all isHexDigit hs \<and> (case rest of [] \<Rightarrow> True | r # _ \<Rightarrow> \<not> isHexDigit r))"
proof (cases "take 2 u = [0x30, 0x78] \<or> take 2 u = [0x30, 0x58]")
  case True
  from run_split [of "drop 2 u" isHexDigit] obtain hs rest
    where "drop 2 u = hs @ rest" "list_all isHexDigit hs"
      "case rest of [] \<Rightarrow> True | r # _ \<Rightarrow> \<not> isHexDigit r"
    by blast
  moreover have "u = take 2 u @ drop 2 u" by simp
  ultimately have "u = take 2 u @ hs @ rest" by simp
  with True \<open>list_all isHexDigit hs\<close> \<open>case rest of [] \<Rightarrow> True | r # _ \<Rightarrow> \<not> isHexDigit r\<close>
  show ?thesis by blast
next
  case False
  from run_split [of u isDecimalDigit] obtain ds rest
    where d: "u = ds @ rest" "list_all isDecimalDigit ds"
      "case rest of [] \<Rightarrow> True | r # _ \<Rightarrow> \<not> isDecimalDigit r"
    by blast
  have "case rest of [] \<Rightarrow> True
        | r # _ \<Rightarrow> \<not> isDecimalDigit r \<and> (ds = [0x30] \<longrightarrow> r \<noteq> 0x78 \<and> r \<noteq> 0x58)"
    using d(1,3) False by (cases rest) auto
  with d(1,2) show ?thesis by blast
qed

lemma parseInt_text_cases:
  "(\<exists>ws sign ds rest. v = ws @ sign @ ds @ rest \<and> decimalText ws sign ds rest)
   \<or> (\<exists>ws sign px hs rest. v = ws @ sign @ px @ hs @ rest \<and> hexText ws sign px hs rest)"
proof -
  from white_split [of v] obtain ws t
    where t: "v = ws @ t" "list_all isWhiteSpace ws" "t = [] \<or> \<not> isWhiteSpace (hd t)"
    by blast
  obtain sign u where u: "t = sign @ u" "isSign sign"
    "sign = [] \<longrightarrow> u = [] \<or> (\<not> isWhiteSpace (hd u) \<and> hd u \<noteq> 0x2B \<and> hd u \<noteq> 0x2D)"
  proof (cases "t \<noteq> [] \<and> (hd t = 0x2B \<or> hd t = 0x2D)")
    case True
    then have "t = [hd t] @ tl t" "isSign [hd t]" by (auto simp: isSign_def)
    then show ?thesis using that [of "[hd t]" "tl t"] by simp
  next
    case False
    with t(3) show ?thesis using that [of "[]" t] by (auto simp: isSign_def)
  qed
  from unsigned_text_cases [of u] show ?thesis
  proof
    assume "\<exists>ds rest. u = ds @ rest \<and> list_all isDecimalDigit ds
      \<and> (case rest of [] \<Rightarrow> True
          | r # _ \<Rightarrow> \<not> isDecimalDigit r \<and> (ds = [0x30] \<longrightarrow> r \<noteq> 0x78 \<and> r \<noteq> 0x58))"
    then obtain ds rest where d: "u = ds @ rest" "list_all isDecimalDigit ds"
      "case rest of [] \<Rightarrow> True
       | r # _ \<Rightarrow> \<not> isDecimalDigit r \<and> (ds = [0x30] \<longrightarrow> r \<noteq> 0x78 \<and> r \<noteq> 0x58)"
      by blast
    have "decimalText ws sign ds rest"
      using t(2) u(2,3) d by (cases rest) (auto simp add: decimalText_def)
    moreover have "v = ws @ sign @ ds @ rest" using t(1) u(1) d(1) by simp
    ultimately show ?thesis by blast
  next
    assume "\<exists>px hs rest. u = px @ hs @ rest \<and> (px = [0x30, 0x78] \<or> px = [0x30, 0x58])
      \<and> list_all isHexDigit hs \<and> (case rest of [] \<Rightarrow> True | r # _ \<Rightarrow> \<not> isHexDigit r)"
    then obtain px hs rest where h: "u = px @ hs @ rest"
      "px = [0x30, 0x78] \<or> px = [0x30, 0x58]" "list_all isHexDigit hs"
      "case rest of [] \<Rightarrow> True | r # _ \<Rightarrow> \<not> isHexDigit r"
      by blast
    have "hexText ws sign px hs rest"
      using t(2) u(2) h(2-4) by (simp add: hexText_def)
    moreover have "v = ws @ sign @ px @ hs @ rest" using t(1) u(1) h(1) by simp
    ultimately show ?thesis by blast
  qed
qed

lemma natToString_not_Nil: "natToString n \<noteq> []"
  by (subst natToString.simps) (simp add: Let_def)

lemma natToString_digits: "list_all isDecimalDigit (natToString n)"
proof (induction n rule: natToString.induct)
  case (1 n)
  have last: "isDecimalDigit (0x30 + n mod 10)"
    by (simp add: isDecimalDigit_def)
  show ?case
  proof (cases "n < 10")
    case True
    with last show ?thesis by (subst natToString.simps) (simp add: Let_def)
  next
    case False
    with "1.IH" last show ?thesis by (subst natToString.simps) (simp add: Let_def)
  qed
qed

lemma placeValue_snoc: "placeValue R (Z @ [c]) = placeValue R Z * R + digitOf c"
  by (induction Z) (simp_all add: algebra_simps)

lemma placeValue_natToString: "placeValue 10 (natToString n) = n"
proof (induction n rule: natToString.induct)
  case (1 n)
  have last: "digitOf (0x30 + n mod 10) = n mod 10"
    by (simp add: digitOf_def)
  show ?case
  proof (cases "n < 10")
    case True
    with last show ?thesis by (subst natToString.simps) (simp add: Let_def)
  next
    case False
    with "1.IH" have "placeValue 10 (natToString (n div 10)) = n div 10" by simp
    with last False show ?thesis
      by (subst natToString.simps) (simp add: Let_def placeValue_snoc)
  qed
qed

lemma parseInt_toString: "parseInt (toString n) = Some n"
proof (cases "n < 0")
  case True
  have "decimalText [] [0x2D] (natToString (nat (- n))) []"
    by (simp add: decimalText_def isSign_def natToString_digits)
  from parseInt_decimalText [OF this] True show ?thesis
    by (simp add: toString_def natToString_not_Nil placeValue_natToString signValue_def)
next
  case False
  have "decimalText [] [] (natToString (nat n)) []"
    by (simp add: decimalText_def isSign_def natToString_digits)
  from parseInt_decimalText [OF this] False show ?thesis
    by (simp add: toString_def natToString_not_Nil placeValue_natToString signValue_def)
qed

text \<open>
  Claim C4, as amended. With a current chapter \<open>c\<close> and the text \<open>v\<close> of the input field:
  \<open>handleJumpToAyah\<close> changes nothing and fetches nothing when \<open>parseInt(v)\<close> is \<open>NaN\<close>, and
  when the integer \<open>num\<close> that \<open>parseInt\<close> reads from \<open>v\<close> is \<open>\<le> 0\<close> or above
  \<open>c.numberOfAyahs\<close>; otherwise it is \<open>loadAyah(c.number, num)\<close>. \<open>parseInt\<close> skips leading
  white space, reads an optional sign and then the longest run of decimal digits, or of
  hexadecimal digits after a prefix \<open>0x\<close> or \<open>0X\<close>, whatever follows the run: the result
  is \<open>NaN\<close> when the run is empty and the signed value of the run otherwise. Every text
  reads in one of these two ways. For the decimal text of an integer \<open>n\<close> it is \<open>n\<close>.
\<close>

theorem handleJumpToAyah_cases:
  assumes "currentSurah s = Some c"
  shows "(parseInt v = None \<longrightarrow> handleJumpToAyah g v s = s)
       \<and> (parseInt v = Some num \<and> (num \<le> 0 \<or> num > numberOfAyahs c) \<longrightarrow>
            handleJumpToAyah g v s = s)
       \<and> (parseInt v = Some num \<and> 0 < num \<and> num \<le> numberOfAyahs c \<longrightarrow>
            handleJumpToAyah g v s
              = loadAyah g (surahs s) (currentSurah s) (number c) num s
          \<and> getAyahCalls (handleJumpToAyah g v s) = getAyahCalls s @ [(number c, num)])
       \<and> (decimalText ws sign ds rest \<longrightarrow>
            parseInt (ws @ sign @ ds @ rest)
              = (if ds = [] then None else Some (signValue sign * int (placeValue 10 ds))))
       \<and> (hexText ws sign px hs rest \<longrightarrow>
            parseInt (ws @ sign @ px @ hs @ rest)
              = (if hs = [] then None else Some (signValue sign * int (placeValue 16 hs))))
       \<and> ((\<exists>ws sign ds rest. v = ws @ sign @ ds @ rest \<and> decimalText ws sign ds rest)
          \<or> (\<exists>ws sign px hs rest.
                v = ws @ sign @ px @ hs @ rest \<and> hexText ws sign px hs rest))
       \<and> parseInt (toString n) = Some n"
proof -
  have jump: "(parseInt v = None \<longrightarrow> handleJumpToAyah g v s = s)
       \<and> (parseInt v = Some num \<and> (num \<le> 0 \<or> num > numberOfAyahs c) \<longrightarrow>
            handleJumpToAyah g v s = s)
       \<and> (parseInt v = Some num \<and> 0 < num \<and> num \<le> numberOfAyahs c \<longrightarrow>
            handleJumpToAyah g v s
              = loadAyah g (surahs s) (currentSurah s) (number c) num s
          \<and> getAyahCalls (handleJumpToAyah g v s) = getAyahCalls s @ [(number c, num)])"
    using assms by (auto simp add: handleJumpToAyah_def getAyahCalls_loadAyah)
  from jump parseInt_decimalText [of ws sign ds rest] parseInt_hexText [of ws sign px hs rest]
    parseInt_text_cases [of v] parseInt_toString [of n]
  show ?thesis by blast
qed

theorem handleJumpToAyah_cases_witness:
  "currentSurah (readingAt (surahOf 2 286) 1) = Some (surahOf 2 286)
   \<and> decimalText [] [] [] (ascii ''abc'') \<and> parseInt (ascii ''abc'') = None
   \<and> handleJumpToAyah sampleService (ascii ''abc'') (readingAt (surahOf 2 286) 1)
       = readingAt (surahOf 2 286) 1
   \<and> decimalText [] [] (ascii ''300'') [] \<and> parseInt (ascii ''300'') = Some 300
   \<and> 300 > numberOfAyahs (surahOf 2 286)
   \<and> handleJumpToAyah sampleService (ascii ''300'') (readingAt (surahOf 2 286) 1)
       = readingAt (surahOf 2 286) 1
   \<and> decimalText [0xA0] (ascii ''+'') (ascii ''12'') (ascii ''.5'')
   \<and> parseInt (0xA0 # ascii ''+12.5'') = Some 12
   \<and> (0::int) < 12 \<and> 12 \<le> numberOfAyahs (surahOf 2 286)
   \<and> getAyahCalls
        (handleJumpToAyah sampleService (0xA0 # ascii ''+12.5'') (readingAt (surahOf 2 286) 1))
       = [(2, 12)]
   \<and> hexText (ascii '' '') (ascii ''-'') (ascii ''0x'') (ascii ''1F'') (ascii ''g'')
   \<and> parseInt (ascii '' -0x1Fg'') = Some (- 31)
   \<and> hexText [] [] (ascii ''0x'') [] [] \<and> parseInt (ascii ''0x'') = None
   \<and> parseInt (toString 12) = Some 12"
proof -
  let ?s = "readingAt (surahOf 2 286) 1"
  have cur: "currentSurah ?s = Some (surahOf 2 286)"
    by (simp add: readingAt_def)
  have count: "numberOfAyahs (surahOf 2 286) = 286" and num: "number (surahOf 2 286) = 2"
    and calls: "getAyahCalls ?s = []"
    by (simp_all add: surahOf_def readingAt_def initialApp_def)
  have d1: "decimalText [] [] [] (ascii ''abc'')"
    by (simp add: decimalText_def isSign_def isDecimalDigit_def isWhiteSpace_def ascii_def)
  have d2: "decimalText [] [] (ascii ''300'') []"
    by (simp add: decimalText_def isSign_def isDecimalDigit_def ascii_def)
  have d3: "decimalText [0xA0] (ascii ''+'') (ascii ''12'') (ascii ''.5'')"
    by (simp add: decimalText_def isSign_def isDecimalDigit_def isWhiteSpace_def ascii_def)
  have h1: "hexText (ascii '' '') (ascii ''-'') (ascii ''0x'') (ascii ''1F'') (ascii ''g'')"
    by (simp add: hexText_def isSign_def isHexDigit_def isWhiteSpace_def ascii_def)
  have h2: "hexText [] [] (ascii ''0x'') [] []"
    by (simp add: hexText_def isSign_def ascii_def)
  have p1: "parseInt (ascii ''abc'') = None"
    using handleJumpToAyah_cases [OF cur, where ws = "[]" and sign = "[]" and ds = "[]"
        and rest = "ascii ''abc''"] d1
    by simp
  have p2: "parseInt (ascii ''300'') = Some 300"
    using handleJumpToAyah_cases [OF cur, where ws = "[]" and sign = "[]"
        and ds = "ascii ''300''" and rest = "[]"] d2
    by (simp add: ascii_def signValue_def digitOf_def)
  have p3: "parseInt (0xA0 # ascii ''+12.5'') = Some 12"
    using handleJumpToAyah_cases [OF cur, where ws = "[0xA0]" and sign = "ascii ''+''"
        and ds = "ascii ''12''" and rest = "ascii ''.5''"] d3
    by (simp add: ascii_def signValue_def digitOf_def)
  have p4: "parseInt (ascii '' -0x1Fg'') = Some (- 31)"
    using handleJumpToAyah_cases [OF cur, where ws = "ascii '' ''" and sign = "ascii ''-''"
        and px = "ascii ''0x''" and hs = "ascii ''1F''" and rest = "ascii ''g''"] h1
    by (simp add: ascii_def signValue_def digitOf_def)
  have p5: "parseInt (ascii ''0x'') = None"
    using handleJumpToAyah_cases [OF cur, where ws = "[]" and sign = "[]"
        and px = "ascii ''0x''" and hs = "[]" and rest = "[]"] h2
    by simp
  have j1: "handleJumpToAyah sampleService (ascii ''abc'') ?s = ?s"
    using handleJumpToAyah_cases [OF cur, where v = "ascii ''abc''"] p1 by blast
  have j2: "handleJumpToAyah sampleService (ascii ''300'') ?s = ?s"
    using handleJumpToAyah_cases [OF cur, where v = "ascii ''300''" and num = 300] p2 count
    by simp
  have j3: "getAyahCalls (handleJumpToAyah sampleService (0xA0 # ascii ''+12.5'') ?s)
              = [(2, 12)]"
    using handleJumpToAyah_cases [OF cur, where v = "0xA0 # ascii ''+12.5''" and num = 12
        and g = sampleService] p3 count num calls
    by (simp add: getAyahCalls_loadAyah)
  have t: "parseInt (toString 12) = Some 12"
    using handleJumpToAyah_cases [OF cur, where n = 12] by blast
  from cur d1 p1 j1 d2 p2 count j2 d3 p3 j3 h1 p4 h2 p5 t show ?thesis
    by simp
qed

theorem handleJumpToAyah_fraction_counterexample:
  "parseInt (ascii ''2.5'') = Some 2
   \<and> getAyahCalls (handleJumpToAyah sampleService (ascii ''2.5'') (readingAt (surahOf 2 286) 1))
       = [(2, 2)]
   \<and> handleJumpToAyah sampleService (ascii ''2.5'') (readingAt (surahOf 2 286) 1)
       \<noteq> readingAt (surahOf 2 286) 1"
proof -
  have "decimalText [] [] (ascii ''2'') (ascii ''.5'')"
    by (simp add: decimalText_def isSign_def isDecimalDigit_def ascii_def)
  from parseInt_decimalText [OF this] have p: "parseInt (ascii ''2.5'') = Some 2"
    by (simp add: ascii_def signValue_def digitOf_def)
  have calls:
    "getAyahCalls (handleJumpToAyah sampleService (ascii ''2.5'') (readingAt (surahOf 2 286) 1))
       = [(2, 2)]"
    by (simp add: handleJumpToAyah_def p getAyahCalls_loadAyah readingAt_def initialApp_def
        surahOf_def)
  have "getAyahCalls (readingAt (surahOf 2 286) 1) = []"
    by (simp add: readingAt_def initialApp_def)
  with calls
  have "handleJumpToAyah sampleService (ascii ''2.5'') (readingAt (surahOf 2 286) 1)
          \<noteq> readingAt (surahOf 2 286) 1"
    by auto
  with p calls show ?thesis by simp
qed

section \<open>The positions that are fetched\<close>
















text \<open>
  The hypothesis on the current position is needed for \<open>handlePrevAyah\<close>. A chapter
  selection whose fetch is rejected has already set the chapter and keeps the old verse
  number, so the position can leave the range; from there the previous verse is fetched
  as it is.
\<close>

lemma rejected_selection_leaves_range:
  "positionInRange (readingAt (surahOf 2 286) 200)
   \<and> \<not> positionInRange
         (selectSurahFromList (\<lambda>n a. Rejected) (surahOf 1 7) (readingAt (surahOf 2 286) 200))
   \<and> fetched
        (selectSurahFromList (\<lambda>n a. Rejected) (surahOf 1 7) (readingAt (surahOf 2 286) 200))
        (handlePrevAyah sampleService
          (selectSurahFromList (\<lambda>n a. Rejected) (surahOf 1 7)
            (readingAt (surahOf 2 286) 200)))
       = [(1, 199)]"
proof -
  have m: "surahOf 2 286 \<in> set allSurahs"
    by code_simp
  have a: "positionInRange (readingAt (surahOf 2 286) 200)"
    using m by (simp add: positionInRange_def readingAt_def surahOf_def)
  have b: "\<not> positionInRange
         (selectSurahFromList (\<lambda>n a. Rejected) (surahOf 1 7) (readingAt (surahOf 2 286) 200))"
    by (simp add: positionInRange_def selectSurahFromList_def loadAyah_def readingAt_def
        initialApp_def surahOf_def)
  have cur:
    "currentSurah
       (selectSurahFromList (\<lambda>n a. Rejected) (surahOf 1 7) (readingAt (surahOf 2 286) 200))
      = Some (surahOf 1 7)"
    "currentAyahNum
       (selectSurahFromList (\<lambda>n a. Rejected) (surahOf 1 7) (readingAt (surahOf 2 286) 200))
      = 200"
    by (simp_all add: selectSurahFromList_def loadAyah_def readingAt_def)
  have c: "fetched
        (selectSurahFromList (\<lambda>n a. Rejected) (surahOf 1 7) (readingAt (surahOf 2 286) 200))
        (handlePrevAyah sampleService
          (selectSurahFromList (\<lambda>n a. Rejected) (surahOf 1 7)
            (readingAt (surahOf 2 286) 200)))
       = [(1, 199)]"
    by (simp add: handlePrevAyah_def cur fetched_loadAyah) (simp add: surahOf_def)
  from a b c show ?thesis by simp
qed

end
